theory Spec2Isabelle
  imports Complex_Main "HOL-Library.Monad_Syntax" "HOL-Library.Multiset" "HOL-Library.Log_Nat"
begin

section \<open>Data model\<close>

text \<open>
  Python strings are sequences of code points. A character is modelled by an Isabelle
  \<open>char\<close>, read as a code point in the range 0..255, and a string by a \<open>char list\<close>,
  so \<open>length\<close> counts what Python's \<open>len\<close> counts on that range.

  Python numbers: the table holds \<open>int\<close>s and, once a cost of 0.5 has been added,
  \<open>float\<close>s. Every table entry is a multiple of 1/2, which a \<open>float\<close> holds exactly
  (for words shorter than 2^52 characters); the only operations that round are the final
  division and subtraction of \<open>1 - dist / max_len\<close>. A \<open>float\<close> is modelled by the
  rational number it denotes, and comparisons of floats are comparisons of these rationals.
  The last line is given in two readings:
  \<^item> \<open>modified_levenshtein_ratio\<close>, \<open>similarities\<close>, \<open>autocorrect\<close>: exact arithmetic, a
    score is the exact value of \<open>1 - dist / max_len\<close> and the constant 0.90 is 9/10;
  \<^item> \<open>modified_levenshtein_ratio_float\<close>, \<open>similarities_float\<close>, \<open>autocorrect_float\<close>:
    binary64 arithmetic as CPython performs it, each of the two operations rounded to the
    nearest double (ties to even) by \<open>float64\<close>, and the constant 0.90 the double
    \<open>float64 (9 / 10)\<close>. A threshold passed by the caller is the rational value of the
    caller's float.

  The keymap is a Python \<open>dict\<close> from strings to lists of strings (as
  \<open>load_keymap_conf\<close> builds it): a map \<open>string \<rightharpoonup> string list\<close>.

  A raised exception (\<open>IndexError\<close> of a list or string subscript,
  \<open>ZeroDivisionError\<close>) is the value \<open>None\<close> of the option monad.
\<close>

type_synonym keymap = "string \<rightharpoonup> string list"

type_synonym table = "rat list list"

subsection \<open>Python primitives used by the source\<close>

text \<open>\<open>str.lower()\<close> of one code point below 256: A..Z and the Latin-1 capitals
  (0xC0..0xDE without the multiplication sign 0xD7) move up by 32.\<close>

definition lower_char :: "char \<Rightarrow> char" where
  "lower_char c =
     (let n = (of_char c :: nat)
      in if (65 \<le> n \<and> n \<le> 90) \<or> (192 \<le> n \<and> n \<le> 222 \<and> n \<noteq> 215)
         then char_of (n + 32) else c)"

definition lower :: "string \<Rightarrow> string" where
  "lower s = map lower_char s"

text \<open>\<open>d.get(k, [])\<close>.\<close>

definition dict_get :: "keymap \<Rightarrow> string \<Rightarrow> string list" where
  "dict_get d k = (case d k of None \<Rightarrow> [] | Some v \<Rightarrow> v)"

text \<open>\<open>s[i]\<close> for a non-negative index: out of range raises.\<close>

definition subscript :: "'a list \<Rightarrow> nat \<Rightarrow> 'a option" where
  "subscript xs i = (if i < length xs then Some (xs ! i) else None)"

text \<open>\<open>dp[i][j]\<close> read and \<open>dp[i][j] = v\<close> write; either subscript out of range raises.\<close>

definition get2 :: "table \<Rightarrow> nat \<Rightarrow> nat \<Rightarrow> rat option" where
  "get2 dp i j = do { row \<leftarrow> subscript dp i; subscript row j }"

definition set2 :: "table \<Rightarrow> nat \<Rightarrow> nat \<Rightarrow> rat \<Rightarrow> table option" where
  "set2 dp i j v =
     do { row \<leftarrow> subscript dp i;
          if j < length row then Some (dp[i := row[j := v]]) else None }"

text \<open>\<open>for i in range(...): body\<close> over a state; an exception in the body ends the loop.\<close>

fun for_range :: "nat list \<Rightarrow> (nat \<Rightarrow> 's \<Rightarrow> 's option) \<Rightarrow> 's \<Rightarrow> 's option" where
  "for_range [] body s = Some s"
| "for_range (i # is) body s = do { s' \<leftarrow> body i s; for_range is body s' }"

text \<open>\<open>xs[:n]\<close>: a negative \<open>n\<close> counts from the end.\<close>

definition slice_to :: "'a list \<Rightarrow> int \<Rightarrow> 'a list" where
  "slice_to xs n =
     (if n < 0 then take (nat (int (length xs) + n)) xs else take (nat n) xs)"

subsection \<open>Binary64 rounding\<close>

text \<open>The nearest integer, ties to the even one.\<close>

definition round_half_even :: "rat \<Rightarrow> int" where
  "round_half_even r =
     (let f = \<lfloor>r\<rfloor>; d = r - of_int f
      in if d < 1 / 2 then f else if 1 / 2 < d then f + 1 else if even f then f else f + 1)"

text \<open>The binary exponent of a positive rational \<open>a\<close>: the \<open>e\<close> with
  \<open>2^e \<le> a < 2^(e+1)\<close>, from the bit lengths of numerator and denominator.\<close>

definition exponent :: "rat \<Rightarrow> int" where
  "exponent a =
     (let (p, q) = quotient_of a; k = bitlen p - bitlen q
      in if 2 powi k \<le> a then k else k - 1)"

text \<open>The double nearest to \<open>x\<close> (53 significant bits, round to nearest, ties to even),
  as IEEE 754 division and subtraction return it in the normal range; the scores of
  the engine are 0 or lie between \<open>1 / (2 * max_len)\<close> and 1.\<close>

definition float64 :: "rat \<Rightarrow> rat" where
  "float64 x =
     (if x = 0 then 0
      else let a = \<bar>x\<bar>; u = 2 powi (exponent a - 52)
           in sgn x * of_int (round_half_even (a / u)) * u)"

section \<open>Distance engine\<close>

text \<open>\<open>are_keys_nearby\<close> (lines 42-45): both characters are lowercased, the first is
  the lookup key.\<close>

definition are_keys_nearby :: "char \<Rightarrow> char \<Rightarrow> keymap \<Rightarrow> bool" where
  "are_keys_nearby c1 c2 nearby_keys =
     ([lower_char c2] \<in> set (dict_get nearby_keys [lower_char c1]))"

text \<open>The \<open>if c1 == c2 / elif / else\<close> of lines 64-69.\<close>

definition substitution_cost :: "keymap \<Rightarrow> char \<Rightarrow> char \<Rightarrow> rat" where
  "substitution_cost nearby_keys c1 c2 =
     (if c1 = c2 then 0
      else if are_keys_nearby c1 c2 nearby_keys then 1 / 2
      else 1)"

text \<open>The body of the inner loop, lines 62-74.\<close>

definition cell_update :: "string \<Rightarrow> string \<Rightarrow> keymap \<Rightarrow> nat \<Rightarrow> nat \<Rightarrow> table \<Rightarrow> table option" where
  "cell_update word1 word2 nearby_keys i j dp =
     do { c1 \<leftarrow> subscript word1 (i - 1);
          c2 \<leftarrow> subscript word2 (j - 1);
          let cost = substitution_cost nearby_keys c1 c2;
          deletion \<leftarrow> get2 dp (i - 1) j;
          insertion \<leftarrow> get2 dp i (j - 1);
          substitution \<leftarrow> get2 dp (i - 1) (j - 1);
          set2 dp i j (min (min (deletion + 1) (insertion + 1)) (substitution + cost)) }"

text \<open>The table after the three loops of lines 53-74.\<close>

definition fill_table :: "string \<Rightarrow> string \<Rightarrow> keymap \<Rightarrow> table option" where
  "fill_table word1 word2 nearby_keys =
     (let len1 = length word1; len2 = length word2;
          dp = replicate (len1 + 1) (replicate (len2 + 1) 0)
      in do { dp \<leftarrow> for_range [0..<len1 + 1] (\<lambda>i dp. set2 dp i 0 (of_nat i)) dp;
              dp \<leftarrow> for_range [0..<len2 + 1] (\<lambda>j dp. set2 dp 0 j (of_nat j)) dp;
              for_range [1..<len1 + 1]
                (\<lambda>i. for_range [1..<len2 + 1] (cell_update word1 word2 nearby_keys i)) dp })"

definition modified_levenshtein_ratio :: "string \<Rightarrow> string \<Rightarrow> keymap \<Rightarrow> rat option" where
  "modified_levenshtein_ratio word1 word2 nearby_keys =
     (let len1 = length word1; len2 = length word2
      in do { dp \<leftarrow> fill_table word1 word2 nearby_keys;
              dist \<leftarrow> get2 dp len1 len2;
              let max_len = (if max len1 len2 \<noteq> 0 then max len1 len2 else 1);
              if max_len = 0 then None
              else Some (1 - dist / of_nat max_len) })"

text \<open>The same function with line 77 in binary64 arithmetic: the quotient is rounded,
  then the difference.\<close>

definition modified_levenshtein_ratio_float :: "string \<Rightarrow> string \<Rightarrow> keymap \<Rightarrow> rat option" where
  "modified_levenshtein_ratio_float word1 word2 nearby_keys =
     (let len1 = length word1; len2 = length word2
      in do { dp \<leftarrow> fill_table word1 word2 nearby_keys;
              dist \<leftarrow> get2 dp len1 len2;
              let max_len = (if max len1 len2 \<noteq> 0 then max len1 len2 else 1);
              if max_len = 0 then None
              else Some (float64 (1 - float64 (dist / of_nat max_len))) })"

section \<open>Suggestion ranker\<close>

text \<open>The scoring loop of lines 89-93: the list \<open>similarities\<close> before it is sorted.\<close>

fun similarities :: "string \<Rightarrow> string list \<Rightarrow> rat \<Rightarrow> keymap \<Rightarrow> (string \<times> rat) list \<Rightarrow> (string \<times> rat) list option" where
  "similarities word [] threshold nearby_keys acc = Some acc"
| "similarities word (w # dictionary) threshold nearby_keys acc =
     do { sim \<leftarrow> modified_levenshtein_ratio word w nearby_keys;
          similarities word dictionary threshold nearby_keys
            (if sim \<ge> threshold then acc @ [(w, sim)] else acc) }"

text \<open>\<open>list.sort(key=lambda x: x[1], reverse=True)\<close>: a stable sort by descending
  score, entries with equal scores keep their order.\<close>

definition sort_by_score :: "(string \<times> rat) list \<Rightarrow> (string \<times> rat) list" where
  "sort_by_score xs = sort_key (\<lambda>x. - snd x) xs"

text \<open>Lines 85-86: an omitted keymap is the empty one.\<close>

definition keymap_arg :: "keymap option \<Rightarrow> keymap" where
  "keymap_arg nearby_keys = (case nearby_keys of None \<Rightarrow> Map.empty | Some m \<Rightarrow> m)"

text \<open>\<open>autocorrect\<close> (lines 80-105). The result is the pair
  \<open>(best_match or None, suggestions)\<close>.\<close>

definition autocorrect ::
  "string \<Rightarrow> string list \<Rightarrow> rat \<Rightarrow> int \<Rightarrow> keymap option \<Rightarrow> (string option \<times> string list) option" where
  "autocorrect word dictionary threshold max_suggestions nearby_keys_arg =
     (let nearby_keys = keymap_arg nearby_keys_arg;
          word = lower word
      in do { sims \<leftarrow> similarities word dictionary threshold nearby_keys [];
              let sims = sort_by_score sims;
              case sims of
                [] \<Rightarrow> Some (None, [])
              | (best_match, best_score) # _ \<Rightarrow>
                  (let suggestions = map fst (slice_to sims max_suggestions)
                   in if best_score > 9 / 10 then Some (Some best_match, suggestions)
                      else Some (None, suggestions)) })"

text \<open>The scoring loop and \<open>autocorrect\<close> on the binary64 scores.\<close>

fun similarities_float :: "string \<Rightarrow> string list \<Rightarrow> rat \<Rightarrow> keymap \<Rightarrow> (string \<times> rat) list \<Rightarrow> (string \<times> rat) list option" where
  "similarities_float word [] threshold nearby_keys acc = Some acc"
| "similarities_float word (w # dictionary) threshold nearby_keys acc =
     do { sim \<leftarrow> modified_levenshtein_ratio_float word w nearby_keys;
          similarities_float word dictionary threshold nearby_keys
            (if sim \<ge> threshold then acc @ [(w, sim)] else acc) }"

definition autocorrect_float ::
  "string \<Rightarrow> string list \<Rightarrow> rat \<Rightarrow> int \<Rightarrow> keymap option \<Rightarrow> (string option \<times> string list) option" where
  "autocorrect_float word dictionary threshold max_suggestions nearby_keys_arg =
     (let nearby_keys = keymap_arg nearby_keys_arg;
          word = lower word
      in do { sims \<leftarrow> similarities_float word dictionary threshold nearby_keys [];
              let sims = sort_by_score sims;
              case sims of
                [] \<Rightarrow> Some (None, [])
              | (best_match, best_score) # _ \<Rightarrow>
                  (let suggestions = map fst (slice_to sims max_suggestions)
                   in if best_score > float64 (9 / 10) then Some (Some best_match, suggestions)
                      else Some (None, suggestions)) })"

section \<open>Auxiliary notions for the proofs\<close>

text \<open>The recurrence that the table implements, on the reversed prefixes (the last
  characters of the prefixes are the heads of the lists): \<open>dp[i][j]\<close> will be shown to be
  \<open>lev\<close> of the first \<open>i\<close> characters of \<open>word1\<close> and the first \<open>j\<close> characters of
  \<open>word2\<close>.\<close>

fun lev :: "keymap \<Rightarrow> string \<Rightarrow> string \<Rightarrow> rat" where
  "lev R [] ys = of_nat (length ys)"
| "lev R (x # xs) [] = of_nat (length (x # xs))"
| "lev R (x # xs) (y # ys) =
     min (min (lev R xs (y # ys) + 1) (lev R (x # xs) ys + 1))
         (lev R xs ys + substitution_cost R x y)"

definition prefix_dist :: "keymap \<Rightarrow> string \<Rightarrow> string \<Rightarrow> nat \<Rightarrow> nat \<Rightarrow> rat" where
  "prefix_dist R word1 word2 i j = lev R (rev (take i word1)) (rev (take j word2))"

text \<open>The shape of the table, and the loop invariants: rows below \<open>k\<close> are final, and in
  row \<open>i\<close> the cells left of \<open>l\<close> are final.\<close>

definition dims :: "nat \<Rightarrow> nat \<Rightarrow> table \<Rightarrow> bool" where
  "dims n m dp = (length dp = n \<and> (\<forall>i<n. length (dp ! i) = m))"

definition rows_done :: "keymap \<Rightarrow> string \<Rightarrow> string \<Rightarrow> nat \<Rightarrow> table \<Rightarrow> bool" where
  "rows_done R word1 word2 k dp =
     (dims (length word1 + 1) (length word2 + 1) dp
      \<and> (\<forall>i<length word1 + 1. dp ! i ! 0 = of_nat i)
      \<and> (\<forall>i<k. \<forall>j<length word2 + 1. dp ! i ! j = prefix_dist R word1 word2 i j))"

definition cells_done :: "keymap \<Rightarrow> string \<Rightarrow> string \<Rightarrow> nat \<Rightarrow> nat \<Rightarrow> table \<Rightarrow> bool" where
  "cells_done R word1 word2 i l dp =
     (rows_done R word1 word2 i dp
      \<and> (\<forall>j<l. dp ! i ! j = prefix_dist R word1 word2 i j))"

text \<open>The value of \<open>modified_levenshtein_ratio\<close> and the list built by the scoring loop,
  in closed form.\<close>

definition ratio :: "string \<Rightarrow> string \<Rightarrow> keymap \<Rightarrow> rat" where
  "ratio word1 word2 R =
     1 - lev R (rev word1) (rev word2) / of_nat (max (max (length word1) (length word2)) 1)"

definition retained :: "string \<Rightarrow> string list \<Rightarrow> rat \<Rightarrow> keymap \<Rightarrow> (string \<times> rat) list" where
  "retained word dictionary threshold R =
     filter (\<lambda>p. threshold \<le> snd p) (map (\<lambda>w. (w, ratio word w R)) dictionary)"

text \<open>The same closed forms for the binary64 reading.\<close>

definition ratio_float :: "string \<Rightarrow> string \<Rightarrow> keymap \<Rightarrow> rat" where
  "ratio_float word1 word2 R =
     float64 (1 - float64 (lev R (rev word1) (rev word2)
                 / of_nat (max (max (length word1) (length word2)) 1)))"

definition retained_float :: "string \<Rightarrow> string list \<Rightarrow> rat \<Rightarrow> keymap \<Rightarrow> (string \<times> rat) list" where
  "retained_float word dictionary threshold R =
     filter (\<lambda>p. threshold \<le> snd p) (map (\<lambda>w. (w, ratio_float word w R)) dictionary)"

section \<open>The loops compute the recurrence\<close>

lemma for_range_upt:
  assumes "a \<le> b" and "P a s"
    and "\<And>i s. a \<le> i \<Longrightarrow> i < b \<Longrightarrow> P i s \<Longrightarrow> \<exists>s'. body i s = Some s' \<and> P (Suc i) s'"
  shows "\<exists>s'. for_range [a..<b] body s = Some s' \<and> P b s'"
  using assms
proof (induction "b - a" arbitrary: a s)
  case 0
  then show ?case by simp
next
  case (Suc n)
  then have ab: "a < b" by simp
  from Suc.prems(3)[of a s] ab Suc.prems(2) obtain s1 where s1: "body a s = Some s1" "P (Suc a) s1"
    by auto
  have "n = b - Suc a" using Suc.hyps(2) by simp
  from Suc.hyps(1)[OF this _ s1(2)] Suc.prems(3) ab
  obtain s' where "for_range [Suc a..<b] body s1 = Some s'" "P b s'"
    by (metis Suc_leD Suc_leI)
  then show ?case using ab s1 by (simp add: upt_conv_Cons)
qed

lemma get2_dims: "dims n m dp \<Longrightarrow> i < n \<Longrightarrow> j < m \<Longrightarrow> get2 dp i j = Some (dp ! i ! j)"
  by (simp add: get2_def subscript_def dims_def)

lemma set2_dims:
  "dims n m dp \<Longrightarrow> i < n \<Longrightarrow> j < m \<Longrightarrow> set2 dp i j v = Some (dp[i := (dp ! i)[j := v]])"
  by (simp add: set2_def subscript_def dims_def)

lemma dims_update: "dims n m dp \<Longrightarrow> dims n m (dp[i := (dp ! i)[j := v]])"
  by (cases "i < n") (auto simp: dims_def nth_list_update)

lemma nth_update2:
  "dims n m dp \<Longrightarrow> i < n \<Longrightarrow> j < m \<Longrightarrow> i' < n \<Longrightarrow>
   dp[i := (dp ! i)[j := v]] ! i' ! j' = (if i' = i \<and> j' = j then v else dp ! i' ! j')"
  by (auto simp: dims_def nth_list_update)

lemma dims_replicate: "dims n m (replicate n (replicate m x))"
  by (simp add: dims_def)

text \<open>First loop: column 0.\<close>

lemma init_column:
  assumes "dims n m dp" "0 < m"
  shows "\<exists>dp'. for_range [0..<n] (\<lambda>i dp. set2 dp i 0 (of_nat i)) dp = Some dp'
           \<and> dims n m dp' \<and> (\<forall>i<n. dp' ! i ! 0 = of_nat i)"
proof -
  let ?P = "\<lambda>k dp. dims n m dp \<and> (\<forall>i<k. i < n \<longrightarrow> dp ! i ! 0 = of_nat i)"
  have "\<exists>s'. for_range [0..<n] (\<lambda>i dp. set2 dp i 0 (of_nat i)) dp = Some s' \<and> ?P n s'"
  proof (rule for_range_upt[where P = ?P])
    show "0 \<le> n" by simp
    show "?P 0 dp" using assms by simp
  next
    fix i s assume "i < n" and P: "?P i s"
    then show "\<exists>s'. set2 s i 0 (of_nat i) = Some s' \<and> ?P (Suc i) s'"
      using assms(2) by (auto simp: set2_dims dims_update nth_update2 less_Suc_eq)
  qed
  then show ?thesis by auto
qed

lemma init_row:
  assumes "dims n m dp" "0 < n" "\<forall>i<n. dp ! i ! 0 = of_nat i"
  shows "\<exists>dp'. for_range [0..<m] (\<lambda>j dp. set2 dp 0 j (of_nat j)) dp = Some dp'
           \<and> dims n m dp' \<and> (\<forall>i<n. dp' ! i ! 0 = of_nat i) \<and> (\<forall>j<m. dp' ! 0 ! j = of_nat j)"
proof -
  let ?P = "\<lambda>k dp. dims n m dp \<and> (\<forall>i<n. dp ! i ! 0 = of_nat i)
               \<and> (\<forall>j<k. j < m \<longrightarrow> dp ! 0 ! j = of_nat j)"
  have "\<exists>s'. for_range [0..<m] (\<lambda>j dp. set2 dp 0 j (of_nat j)) dp = Some s' \<and> ?P m s'"
  proof (rule for_range_upt[where P = ?P])
    show "0 \<le> m" by simp
    show "?P 0 dp" using assms by simp
  next
    fix j s assume "j < m" and P: "?P j s"
    then show "\<exists>s'. set2 s 0 j (of_nat j) = Some s' \<and> ?P (Suc j) s'"
      using assms(2) by (auto simp: set2_dims dims_update nth_update2 less_Suc_eq)
  qed
  then show ?thesis by auto
qed

lemma prefix_dist_0_left: "j \<le> length word2 \<Longrightarrow> prefix_dist R word1 word2 0 j = of_nat j"
  by (simp add: prefix_dist_def)

lemma lev_Nil_right: "lev R xs [] = of_nat (length xs)"
  by (cases xs) simp_all

lemma prefix_dist_0_right: "i \<le> length word1 \<Longrightarrow> prefix_dist R word1 word2 i 0 = of_nat i"
  by (simp add: prefix_dist_def lev_Nil_right)

lemma prefix_dist_Suc:
  assumes "i < length word1" "j < length word2"
  shows "prefix_dist R word1 word2 (Suc i) (Suc j) =
           min (min (prefix_dist R word1 word2 i (Suc j) + 1)
                    (prefix_dist R word1 word2 (Suc i) j + 1))
               (prefix_dist R word1 word2 i j + substitution_cost R (word1 ! i) (word2 ! j))"
  using assms by (simp add: prefix_dist_def take_Suc_conv_app_nth)

lemma cell_update_step:
  assumes inv: "cells_done R word1 word2 i l dp"
    and i: "1 \<le> i" "i < length word1 + 1" and l: "1 \<le> l" "l < length word2 + 1"
  shows "\<exists>dp'. cell_update word1 word2 R i l dp = Some dp' \<and> cells_done R word1 word2 i (Suc l) dp'"
proof -
  obtain i0 l0 where i0: "i = Suc i0" and l0: "l = Suc l0"
    using i l by (metis One_nat_def Suc_le_D)
  have i0l: "i0 < length word1" and l0l: "l0 < length word2" using i l i0 l0 by simp_all
  have d: "dims (length word1 + 1) (length word2 + 1) dp"
    and col: "\<forall>i<length word1 + 1. dp ! i ! 0 = of_nat i"
    and rows: "\<forall>i'<i. \<forall>j<length word2 + 1. dp ! i' ! j = prefix_dist R word1 word2 i' j"
    and cells: "\<forall>j<l. dp ! i ! j = prefix_dist R word1 word2 i j"
    using inv by (simp_all add: cells_done_def rows_done_def)
  define v where "v = prefix_dist R word1 word2 i l"
  have r1: "dp ! i0 ! l = prefix_dist R word1 word2 i0 l" using rows i0 l by simp
  have r2: "dp ! i ! l0 = prefix_dist R word1 word2 i l0" using cells l0 by simp
  have r3: "dp ! i0 ! l0 = prefix_dist R word1 word2 i0 l0" using rows i0 l l0 by simp
  have g1: "get2 dp i0 l = Some (dp ! i0 ! l)" using get2_dims[OF d] i i0 l by simp
  have g2: "get2 dp i l0 = Some (dp ! i ! l0)" using get2_dims[OF d] i l l0 by simp
  have g3: "get2 dp i0 l0 = Some (dp ! i0 ! l0)" using get2_dims[OF d] i i0 l l0 by simp
  have upd: "cell_update word1 word2 R i l dp = Some (dp[i := (dp ! i)[l := v]])"
    using i0l l0l i l
    by (simp add: cell_update_def subscript_def i0 l0 g1[unfolded i0 l0] g2[unfolded i0 l0] g3
        r1[unfolded i0 l0] r2[unfolded i0 l0] r3 v_def prefix_dist_Suc
        set2_dims[OF d, unfolded i0 l0])
  let ?dp = "dp[i := (dp ! i)[l := v]]"
  have nth: "\<And>i' j'. i' < length word1 + 1 \<Longrightarrow>
      ?dp ! i' ! j' = (if i' = i \<and> j' = l then v else dp ! i' ! j')"
    using nth_update2[OF d i(2) l(2)] by simp
  have "cells_done R word1 word2 i (Suc l) ?dp"
    unfolding cells_done_def rows_done_def
  proof (intro conjI allI impI)
    show "dims (length word1 + 1) (length word2 + 1) ?dp" using d by (rule dims_update)
  next
    fix i' assume "i' < length word1 + 1"
    then show "?dp ! i' ! 0 = of_nat i'" using col l by (simp add: nth)
  next
    fix i' j assume "i' < i" "j < length word2 + 1"
    then show "?dp ! i' ! j = prefix_dist R word1 word2 i' j" using rows i by (simp add: nth)
  next
    fix j assume "j < Suc l"
    then show "?dp ! i ! j = prefix_dist R word1 word2 i j"
      using cells by (auto simp: nth[OF i(2), unfolded v_def] v_def less_Suc_eq)
  qed
  with upd show ?thesis by simp
qed

lemma row_loop:
  assumes inv: "rows_done R word1 word2 i dp" and i: "1 \<le> i" "i < length word1 + 1"
  shows "\<exists>dp'. for_range [1..<length word2 + 1] (cell_update word1 word2 R i) dp = Some dp'
           \<and> rows_done R word1 word2 (Suc i) dp'"
proof -
  have "\<exists>dp'. for_range [1..<length word2 + 1] (cell_update word1 word2 R i) dp = Some dp'
           \<and> cells_done R word1 word2 i (length word2 + 1) dp'"
  proof (rule for_range_upt[where P = "cells_done R word1 word2 i"])
    show "1 \<le> length word2 + 1" by simp
    show "cells_done R word1 word2 i 1 dp"
      using inv i by (simp add: cells_done_def rows_done_def prefix_dist_0_right)
  next
    fix l s assume "1 \<le> l" "l < length word2 + 1" "cells_done R word1 word2 i l s"
    then show "\<exists>s'. cell_update word1 word2 R i l s = Some s' \<and> cells_done R word1 word2 i (Suc l) s'"
      using cell_update_step[OF _ i] by simp
  qed
  then obtain dp' where dp': "for_range [1..<length word2 + 1] (cell_update word1 word2 R i) dp = Some dp'"
    "cells_done R word1 word2 i (length word2 + 1) dp'" by blast
  have "rows_done R word1 word2 (Suc i) dp'"
    using dp'(2) by (auto simp: cells_done_def rows_done_def less_Suc_eq)
  with dp'(1) show ?thesis by blast
qed

lemma fill_table_rows_done:
  "\<exists>dp. fill_table word1 word2 R = Some dp \<and> rows_done R word1 word2 (length word1 + 1) dp"
proof -
  let ?n = "length word1 + 1" and ?m = "length word2 + 1"
  obtain dp1 where dp1: "for_range [0..<?n] (\<lambda>i dp. set2 dp i 0 (of_nat i))
        (replicate ?n (replicate ?m 0)) = Some dp1"
      "dims ?n ?m dp1" "\<forall>i<?n. dp1 ! i ! 0 = of_nat i"
    using init_column[OF dims_replicate, of ?m ?n 0] by auto
  obtain dp2 where dp2: "for_range [0..<?m] (\<lambda>j dp. set2 dp 0 j (of_nat j)) dp1 = Some dp2"
      "dims ?n ?m dp2" "\<forall>i<?n. dp2 ! i ! 0 = of_nat i" "\<forall>j<?m. dp2 ! 0 ! j = of_nat j"
    using init_row[OF dp1(2) _ dp1(3)] by auto
  have start: "rows_done R word1 word2 1 dp2"
    using dp2 by (simp add: rows_done_def prefix_dist_0_left)
  have "\<exists>dp'. for_range [1..<?n] (\<lambda>i. for_range [1..<?m] (cell_update word1 word2 R i)) dp2 = Some dp'
           \<and> rows_done R word1 word2 ?n dp'"
  proof (rule for_range_upt[where P = "rows_done R word1 word2"])
    show "1 \<le> ?n" by simp
    show "rows_done R word1 word2 1 dp2" by (rule start)
  next
    fix i s assume "1 \<le> i" "i < ?n" "rows_done R word1 word2 i s"
    then show "\<exists>s'. for_range [1..<?m] (cell_update word1 word2 R i) s = Some s'
                 \<and> rows_done R word1 word2 (Suc i) s'"
      using row_loop by blast
  qed
  then show ?thesis using dp1(1) dp2(1) by (simp add: fill_table_def Let_def)
qed

lemma modified_levenshtein_ratio_eq:
  "modified_levenshtein_ratio word1 word2 R = Some (ratio word1 word2 R)"
proof -
  obtain dp where dp: "fill_table word1 word2 R = Some dp"
      "rows_done R word1 word2 (length word1 + 1) dp"
    using fill_table_rows_done by blast
  have d: "dims (length word1 + 1) (length word2 + 1) dp" using dp(2) by (simp add: rows_done_def)
  have "get2 dp (length word1) (length word2) = Some (dp ! length word1 ! length word2)"
    using get2_dims[OF d] by simp
  moreover have "dp ! length word1 ! length word2 = lev R (rev word1) (rev word2)"
    using dp(2) by (simp add: rows_done_def prefix_dist_def)
  moreover have "(if max (length word1) (length word2) \<noteq> 0 then max (length word1) (length word2) else 1)
      = max (max (length word1) (length word2)) 1" by (simp add: max_def)
  ultimately show ?thesis
    using dp(1) by (simp add: modified_levenshtein_ratio_def ratio_def Let_def del: max_0_1)
qed

section \<open>Properties of the recurrence\<close>

lemma substitution_cost_nonneg: "0 \<le> substitution_cost R x y"
  by (simp add: substitution_cost_def)

lemma substitution_cost_le_1: "substitution_cost R x y \<le> 1"
  by (simp add: substitution_cost_def)

lemma substitution_cost_0_iff: "substitution_cost R x y = 0 \<longleftrightarrow> x = y"
  by (simp add: substitution_cost_def)

lemma lev_nonneg: "0 \<le> lev R xs ys"
  by (induction R xs ys rule: lev.induct) (simp_all add: substitution_cost_nonneg)

lemma lev_le_max: "lev R xs ys \<le> of_nat (max (length xs) (length ys))"
proof (induction R xs ys rule: lev.induct)
  case (3 R x xs y ys)
  have "lev R (x # xs) (y # ys) \<le> lev R xs ys + substitution_cost R x y" by simp
  also have "\<dots> \<le> of_nat (max (length xs) (length ys)) + 1"
    using "3.IH"(3) substitution_cost_le_1[of R x y] by (rule add_mono)
  also have "\<dots> = of_nat (max (length (x # xs)) (length (y # ys)))" by simp
  finally show ?case .
qed simp_all

lemma lev_refl: "lev R xs xs = 0"
proof (induction xs)
  case (Cons x xs)
  have "lev R (x # xs) (x # xs) \<le> lev R xs xs + substitution_cost R x x" by simp
  then have "lev R (x # xs) (x # xs) \<le> 0" using Cons by (simp add: substitution_cost_def)
  then show ?case using lev_nonneg[of R "x # xs" "x # xs"] by linarith
qed simp

lemma lev_0_imp_eq: "lev R xs ys = 0 \<Longrightarrow> xs = ys"
proof (induction R xs ys rule: lev.induct)
  case (3 R x xs y ys)
  have a: "0 \<le> lev R xs (y # ys)" and b: "0 \<le> lev R (x # xs) ys" and c: "0 \<le> lev R xs ys"
    by (rule lev_nonneg)+
  have d: "0 \<le> substitution_cost R x y" by (rule substitution_cost_nonneg)
  from "3.prems" have "lev R xs ys + substitution_cost R x y = 0"
    using a b c d by (simp add: min_def split: if_splits)
  then have "lev R xs ys = 0" "substitution_cost R x y = 0" using c d by linarith+
  then show ?case using "3.IH"(3) by (simp add: substitution_cost_0_iff)
qed simp_all

lemma lev_0_iff: "lev R xs ys = 0 \<longleftrightarrow> xs = ys"
  using lev_0_imp_eq lev_refl by blast

lemma lev_mono:
  "\<forall>x y. substitution_cost R' x y \<le> substitution_cost R x y \<Longrightarrow> lev R' xs ys \<le> lev R xs ys"
proof (induction R xs ys rule: lev.induct)
  case (3 R x xs y ys)
  have c: "substitution_cost R' x y \<le> substitution_cost R x y" using "3.prems" by blast
  have "lev R' xs (y # ys) + 1 \<le> lev R xs (y # ys) + 1"
    and "lev R' (x # xs) ys + 1 \<le> lev R (x # xs) ys + 1"
    and "lev R' xs ys + substitution_cost R' x y \<le> lev R xs ys + substitution_cost R x y"
    using 3 c by (simp_all add: add_mono)
  then show ?case by (simp add: min_le_iff_disj)
qed simp_all

lemma ratio_mono:
  assumes "\<forall>x y. substitution_cost R' x y \<le> substitution_cost R x y"
  shows "ratio a b R \<le> ratio a b R'"
  using lev_mono[OF assms, of "rev a" "rev b"]
  by (simp add: ratio_def divide_right_mono)

lemma substitution_cost_mono:
  assumes "\<forall>k. set (dict_get R k) \<subseteq> set (dict_get R' k)"
  shows "substitution_cost R' x y \<le> substitution_cost R x y"
  using assms by (auto simp: substitution_cost_def are_keys_nearby_def)

lemma ratio_le_1: "ratio a b R \<le> 1"
  by (simp add: ratio_def lev_nonneg)

lemma ratio_nonneg: "0 \<le> ratio a b R"
proof -
  have "lev R (rev a) (rev b) \<le> of_nat (max (length a) (length b))"
    using lev_le_max[of R "rev a" "rev b"] by simp
  also have "\<dots> \<le> of_nat (max (max (length a) (length b)) 1)" by simp
  finally show ?thesis by (simp add: ratio_def)
qed

lemma ratio_1_iff: "ratio a b R = 1 \<longleftrightarrow> a = b"
  by (simp add: ratio_def lev_0_iff)

section \<open>The scoring loop and the ranking in closed form\<close>

lemma similarities_acc:
  "similarities word dictionary threshold R acc = Some (acc @ retained word dictionary threshold R)"
  by (induction dictionary arbitrary: acc)
     (simp_all add: retained_def modified_levenshtein_ratio_eq)

lemma similarities_eq:
  "similarities word dictionary threshold R [] = Some (retained word dictionary threshold R)"
  by (simp add: similarities_acc)

lemma map_fst_retained:
  "map fst (retained word dictionary threshold R) =
     filter (\<lambda>w. threshold \<le> ratio word w R) dictionary"
  by (simp add: retained_def filter_map comp_def)

lemma set_retained:
  "p \<in> set (retained word dictionary threshold R) \<longleftrightarrow>
     fst p \<in> set dictionary \<and> snd p = ratio word (fst p) R \<and> threshold \<le> snd p"
  by (cases p) (auto simp: retained_def)

lemma autocorrect_eq:
  "autocorrect word dictionary threshold n ka =
     Some (case sort_by_score (retained (lower word) dictionary threshold (keymap_arg ka)) of
             [] \<Rightarrow> (None, [])
           | (best_match, best_score) # rest \<Rightarrow>
               (if best_score > 9 / 10 then Some best_match else None,
                map fst (slice_to
                  (sort_by_score (retained (lower word) dictionary threshold (keymap_arg ka))) n)))"
  by (simp add: autocorrect_def similarities_eq Let_def split: list.splits)

lemma sort_by_score_Nil_iff: "sort_by_score xs = [] \<longleftrightarrow> xs = []"
  by (metis sort_by_score_def length_sort length_0_conv)

lemma set_sort_by_score: "set (sort_by_score xs) = set xs"
  by (simp add: sort_by_score_def)

lemma mset_sort_by_score: "mset (sort_by_score xs) = mset xs"
  by (simp add: sort_by_score_def)

lemma sorted_sort_by_score: "sorted_wrt (\<lambda>p q. snd q \<le> snd p) (sort_by_score xs)"
proof -
  have "sorted (map (\<lambda>x. - snd x) (sort_by_score xs))"
    by (simp add: sort_by_score_def)
  then show ?thesis by (simp add: sorted_wrt_map)
qed

lemma stable_sort_by_score:
  "filter (\<lambda>p. snd p = k) (sort_by_score xs) = filter (\<lambda>p. snd p = k) xs"
proof -
  have "filter (\<lambda>p. - snd p = - k) (sort_key (\<lambda>x. - snd x) xs) = filter (\<lambda>p. - snd p = - k) xs"
    by (rule sort_key_stable)
  then show ?thesis by (simp add: sort_by_score_def)
qed

lemma hd_sort_by_score_Max:
  assumes "xs \<noteq> []"
  shows "snd (hd (sort_by_score xs)) = Max (snd ` set xs)"
proof -
  from assms obtain p ps where ps: "sort_by_score xs = p # ps"
    by (cases "sort_by_score xs") (simp_all add: sort_by_score_Nil_iff)
  have "\<forall>q \<in> set ps. snd q \<le> snd p"
    using sorted_sort_by_score[of xs] by (simp add: ps)
  then have "\<forall>q \<in> set xs. snd q \<le> snd p"
    using set_sort_by_score[of xs] by (auto simp: ps)
  moreover have "p \<in> set xs" using set_sort_by_score[of xs] by (auto simp: ps)
  ultimately have "Max (snd ` set xs) = snd p"
    by (intro Max_eqI) auto
  then show ?thesis by (simp add: ps)
qed

section \<open>The binary64 reading in closed form\<close>

lemma modified_levenshtein_ratio_float_eq:
  "modified_levenshtein_ratio_float word1 word2 R = Some (ratio_float word1 word2 R)"
proof -
  obtain dp where dp: "fill_table word1 word2 R = Some dp"
      "rows_done R word1 word2 (length word1 + 1) dp"
    using fill_table_rows_done by blast
  have d: "dims (length word1 + 1) (length word2 + 1) dp" using dp(2) by (simp add: rows_done_def)
  have "get2 dp (length word1) (length word2) = Some (dp ! length word1 ! length word2)"
    using get2_dims[OF d] by simp
  moreover have "dp ! length word1 ! length word2 = lev R (rev word1) (rev word2)"
    using dp(2) by (simp add: rows_done_def prefix_dist_def)
  moreover have "(if max (length word1) (length word2) \<noteq> 0 then max (length word1) (length word2) else 1)
      = max (max (length word1) (length word2)) 1" by (simp add: max_def)
  ultimately show ?thesis
    using dp(1) by (simp add: modified_levenshtein_ratio_float_def ratio_float_def Let_def del: max_0_1)
qed

lemma similarities_float_acc:
  "similarities_float word dictionary threshold R acc
     = Some (acc @ retained_float word dictionary threshold R)"
  by (induction dictionary arbitrary: acc)
     (simp_all add: retained_float_def modified_levenshtein_ratio_float_eq)

lemma similarities_float_eq:
  "similarities_float word dictionary threshold R []
     = Some (retained_float word dictionary threshold R)"
  by (simp add: similarities_float_acc)

lemma map_fst_retained_float:
  "map fst (retained_float word dictionary threshold R) =
     filter (\<lambda>w. threshold \<le> ratio_float word w R) dictionary"
  by (simp add: retained_float_def filter_map comp_def)

lemma set_retained_float:
  "p \<in> set (retained_float word dictionary threshold R) \<longleftrightarrow>
     fst p \<in> set dictionary \<and> snd p = ratio_float word (fst p) R \<and> threshold \<le> snd p"
  by (cases p) (auto simp: retained_float_def)

section \<open>Evaluation on concrete inputs\<close>

lemmas eval_ratio = modified_levenshtein_ratio_eq ratio_def substitution_cost_def
  are_keys_nearby_def dict_get_def lower_char_def

lemmas eval_rank = autocorrect_def keymap_arg_def lower_def sort_by_score_def slice_to_def Let_def

text \<open>The table computation itself, run by the kernel on two ten-letter words that differ
  in the last letter: distance 1, similarity exactly 9/10.\<close>

lemma ratio_nine_tenths:
  "modified_levenshtein_ratio ''abcdefghij'' ''abcdefghix'' Map.empty = Some (9 / 10)"
  by code_simp

text \<open>The scenario of the specification: with \<open>o\<close> listing \<open>i\<close> as a neighbour, the
  substitution in \<open>hollo\<close> / \<open>hillo\<close> costs 1/2 instead of 1.\<close>

lemma hollo_hillo:
  "modified_levenshtein_ratio ''hollo'' ''hillo'' Map.empty = Some (4 / 5)"
  "modified_levenshtein_ratio ''hollo'' ''hillo'' [''o'' \<mapsto> [''i'']] = Some (9 / 10)"
  by (simp_all add: eval_ratio)

section \<open>The claims\<close>

subsection \<open>C1: substitution cost of equal characters\<close>

text \<open>C1: the claim is that the substitution cost is 0 whenever the two characters are
  equal case-insensitively. The code does not do this: line 64 compares \<open>c1 == c2\<close> on
  the characters as they are, while the neighbouring test \<open>are_keys_nearby\<close> lowercases
  the same two characters. At \<open>A\<close> and \<open>a\<close>, which have the same lowercase form, the
  cost is 1 and the similarity of the strings \<open>A\<close> and \<open>a\<close> is 0 (in exact and in
  binary64 arithmetic); with \<open>a\<close> listing \<open>b\<close> as a neighbour, the lookup folds the case
  of \<open>A\<close> and the substitution of \<open>A\<close> by \<open>b\<close> costs 1/2, less than that of \<open>A\<close> by
  \<open>a\<close>, which still costs 1.\<close>

theorem case_differing_characters_cost:
  "lower_char (CHR ''A'') = lower_char (CHR ''a'')
   \<and> substitution_cost Map.empty (CHR ''A'') (CHR ''a'') = 1
   \<and> modified_levenshtein_ratio ''A'' ''a'' Map.empty = Some 0
   \<and> modified_levenshtein_ratio_float ''A'' ''a'' Map.empty = Some 0
   \<and> are_keys_nearby (CHR ''A'') (CHR ''b'') [''a'' \<mapsto> [''b'']]
   \<and> substitution_cost [''a'' \<mapsto> [''b'']] (CHR ''A'') (CHR ''b'') = 1 / 2
   \<and> substitution_cost [''a'' \<mapsto> [''b'']] (CHR ''A'') (CHR ''a'') = 1"
proof -
  have l: "lower_char (CHR ''A'') = CHR ''a''" "lower_char (CHR ''a'') = CHR ''a''"
    "lower_char (CHR ''b'') = CHR ''b''"
    by code_simp+
  have "substitution_cost Map.empty (CHR ''A'') (CHR ''a'') = 1"
    by (simp add: substitution_cost_def are_keys_nearby_def dict_get_def)
  moreover have "modified_levenshtein_ratio ''A'' ''a'' Map.empty = Some 0"
    by code_simp
  moreover have "modified_levenshtein_ratio_float ''A'' ''a'' Map.empty = Some 0"
    by code_simp
  moreover have n: "are_keys_nearby (CHR ''A'') (CHR ''b'') [''a'' \<mapsto> [''b'']]"
    by (simp add: are_keys_nearby_def dict_get_def l)
  moreover have "substitution_cost [''a'' \<mapsto> [''b'']] (CHR ''A'') (CHR ''b'') = 1 / 2"
    using n by (simp add: substitution_cost_def)
  moreover have "substitution_cost [''a'' \<mapsto> [''b'']] (CHR ''A'') (CHR ''a'') = 1"
    by (simp add: substitution_cost_def are_keys_nearby_def dict_get_def l)
  ultimately show ?thesis using l by simp
qed

subsection \<open>C2: range of the similarity\<close>

text \<open>C2: for every pair of strings and every neighbour relation,
  \<open>modified_levenshtein_ratio\<close> returns a value (no exception), the value lies in [0, 1],
  it is 1 exactly when the two strings are identical, and for two empty strings it is 1.\<close>

theorem similarity_range:
  "(\<exists>s. modified_levenshtein_ratio a b nearby_keys = Some s
        \<and> 0 \<le> s \<and> s \<le> 1 \<and> (s = 1 \<longleftrightarrow> a = b))
   \<and> modified_levenshtein_ratio [] [] nearby_keys = Some 1"
  by (simp add: modified_levenshtein_ratio_eq ratio_nonneg ratio_le_1 ratio_1_iff)

subsection \<open>C3: the auto-correct decision\<close>

text \<open>C3: whenever the scoring loop retains at least one candidate, the head of the sorted
  list carries the highest retained score; if that score is strictly above 9/10 the result
  is the head's word together with the suggestions, and if it is 9/10 or lower the first
  component is \<open>None\<close> and the same suggestions are returned.\<close>

theorem auto_correct_decision:
  assumes "similarities (lower word) dictionary threshold (keymap_arg nearby_keys) [] = Some sims"
    and "sims \<noteq> []"
  shows "\<exists>best_match best_score rest suggestions.
     sort_by_score sims = (best_match, best_score) # rest
     \<and> best_score = Max (snd ` set sims)
     \<and> suggestions = map fst (slice_to (sort_by_score sims) max_suggestions)
     \<and> (9 / 10 < best_score \<longrightarrow>
          autocorrect word dictionary threshold max_suggestions nearby_keys
            = Some (Some best_match, suggestions))
     \<and> (best_score \<le> 9 / 10 \<longrightarrow>
          autocorrect word dictionary threshold max_suggestions nearby_keys
            = Some (None, suggestions))"
proof -
  have sims: "sims = retained (lower word) dictionary threshold (keymap_arg nearby_keys)"
    using assms(1) by (simp add: similarities_eq)
  obtain p ps where ps: "sort_by_score sims = p # ps"
    using assms(2) by (cases "sort_by_score sims") (simp_all add: sort_by_score_Nil_iff)
  obtain w s where p: "p = (w, s)" by (cases p)
  have "s = Max (snd ` set sims)"
    using hd_sort_by_score_Max[OF assms(2)] by (simp add: ps p)
  then show ?thesis
    using ps p by (simp add: autocorrect_eq sims[symmetric])
qed

text \<open>Both branches at concrete inputs. At the boundary the only candidate scores exactly
  9/10: no auto-correction is returned and the candidate is still suggested. Above the
  boundary the top score is 1 and the top word is the auto-correction.\<close>

theorem auto_correct_decision_witness:
  "similarities (lower ''abcdefghij'') [''abcdefghix''] (3 / 4) (keymap_arg None) []
      = Some [(''abcdefghix'', 9 / 10)]
   \<and> [(''abcdefghix'', 9 / 10 :: rat)] \<noteq> []
   \<and> autocorrect ''abcdefghij'' [''abcdefghix''] (3 / 4) 5 None = Some (None, [''abcdefghix''])
   \<and> similarities (lower ''ab'') [''ac'', ''ab''] (1 / 2) (keymap_arg None) []
      = Some [(''ac'', 1 / 2), (''ab'', 1)]
   \<and> [(''ac'', 1 / 2), (''ab'', 1 :: rat)] \<noteq> []
   \<and> autocorrect ''ab'' [''ac'', ''ab''] (1 / 2) 5 None = Some (Some ''ab'', [''ab'', ''ac''])"
proof -
  have h1: "similarities (lower ''abcdefghij'') [''abcdefghix''] (3 / 4) (keymap_arg None) []
      = Some [(''abcdefghix'', 9 / 10)]"
    by (simp add: lower_def lower_char_def keymap_arg_def ratio_nine_tenths)
  have h2: "[(''abcdefghix'', 9 / 10 :: rat)] \<noteq> []" by simp
  from auto_correct_decision[OF h1 h2, of 5]
  obtain best_match best_score rest suggestions
    where a: "sort_by_score [(''abcdefghix'', 9 / 10)] = (best_match, best_score) # rest"
      and b: "suggestions = map fst (slice_to (sort_by_score [(''abcdefghix'', 9 / 10)]) 5)"
      and c: "best_score \<le> 9 / 10 \<longrightarrow>
          autocorrect ''abcdefghij'' [''abcdefghix''] (3 / 4) 5 None = Some (None, suggestions)"
    by blast
  from a have "best_score = 9 / 10" by (simp add: sort_by_score_def)
  moreover from b have "suggestions = [''abcdefghix'']"
    by (simp add: sort_by_score_def slice_to_def)
  ultimately have low:
    "autocorrect ''abcdefghij'' [''abcdefghix''] (3 / 4) 5 None = Some (None, [''abcdefghix''])"
    using c by simp
  have k1: "similarities (lower ''ab'') [''ac'', ''ab''] (1 / 2) (keymap_arg None) []
      = Some [(''ac'', 1 / 2), (''ab'', 1)]"
    by (simp add: eval_ratio lower_def keymap_arg_def)
  have k2: "[(''ac'', 1 / 2), (''ab'', 1 :: rat)] \<noteq> []" by simp
  from auto_correct_decision[OF k1 k2, of 5]
  obtain best_match' best_score' rest' suggestions'
    where a': "sort_by_score [(''ac'', 1 / 2), (''ab'', 1)] = (best_match', best_score') # rest'"
      and b': "suggestions' = map fst (slice_to (sort_by_score [(''ac'', 1 / 2), (''ab'', 1)]) 5)"
      and c': "9 / 10 < best_score' \<longrightarrow>
          autocorrect ''ab'' [''ac'', ''ab''] (1 / 2) 5 None = Some (Some best_match', suggestions')"
    by blast
  from a' have "best_match' = ''ab''" "best_score' = 1" by (simp_all add: sort_by_score_def)
  moreover from b' have "suggestions' = [''ab'', ''ac'']"
    by (simp add: sort_by_score_def slice_to_def)
  ultimately have high:
    "autocorrect ''ab'' [''ac'', ''ab''] (1 / 2) 5 None = Some (Some ''ab'', [''ab'', ''ac''])"
    using c' by simp
  from h1 h2 low k1 k2 high show ?thesis by blast
qed

text \<open>The same boundary in binary64: \<open>1 - 0.1\<close> is the double 0.9, which is the constant
  0.90 of line 102, so the score does not exceed it and no auto-correction is returned.\<close>

lemma auto_correct_boundary_float:
  "modified_levenshtein_ratio_float ''abcdefghij'' ''abcdefghix'' Map.empty = Some (float64 (9 / 10))"
  "autocorrect_float ''abcdefghij'' [''abcdefghix''] (3 / 4) 5 None = Some (None, [''abcdefghix''])"
  by code_simp+

text \<open>The first scenario of the specification, run on the table computation itself: the
  scores of \<open>hellp\<close> against \<open>hello\<close>, \<open>hallo\<close> and \<open>help\<close>, and the result of
  \<open>autocorrect\<close> with the default threshold 3/4 and five suggestions.\<close>

lemma hellp_scores:
  "modified_levenshtein_ratio ''hellp'' ''hello'' Map.empty = Some (4 / 5)"
  "modified_levenshtein_ratio ''hellp'' ''hallo'' Map.empty = Some (3 / 5)"
  "modified_levenshtein_ratio ''hellp'' ''help'' Map.empty = Some (4 / 5)"
  by code_simp+

lemma hellp_autocorrect:
  "autocorrect ''hellp'' [''hello'', ''hallo'', ''help''] (3 / 4) 5 None
     = Some (None, [''hello'', ''help''])"
  by (simp add: eval_rank lower_char_def hellp_scores)

subsection \<open>C4: the threshold filter\<close>

text \<open>C4: with the scores in binary64 as the code computes them, the scoring loop never
  fails; the words it retains are, in dictionary order, exactly the dictionary entries for
  which the similarity returned by the engine for the lowercased input word is greater
  than or equal to the threshold (equality included, anything strictly below excluded),
  each paired with that similarity; the suggestions of \<open>autocorrect\<close> are taken from this
  list.\<close>

theorem threshold_filter:
  "\<exists>sims. similarities_float (lower word) dictionary threshold (keymap_arg nearby_keys) [] = Some sims
     \<and> map fst sims =
         filter (\<lambda>w. \<exists>s. modified_levenshtein_ratio_float (lower word) w (keymap_arg nearby_keys) = Some s
                       \<and> threshold \<le> s) dictionary
     \<and> (\<forall>w s. (w, s) \<in> set sims \<longleftrightarrow>
           w \<in> set dictionary
           \<and> modified_levenshtein_ratio_float (lower word) w (keymap_arg nearby_keys) = Some s
           \<and> threshold \<le> s)
     \<and> (\<exists>best. autocorrect_float word dictionary threshold max_suggestions nearby_keys =
           Some (best, map fst (slice_to (sort_by_score sims) max_suggestions)))"
proof -
  let ?R = "keymap_arg nearby_keys"
  let ?sims = "retained_float (lower word) dictionary threshold ?R"
  have "similarities_float (lower word) dictionary threshold ?R [] = Some ?sims"
    by (rule similarities_float_eq)
  moreover have "map fst ?sims =
      filter (\<lambda>w. \<exists>s. modified_levenshtein_ratio_float (lower word) w ?R = Some s \<and> threshold \<le> s)
        dictionary"
    by (simp add: map_fst_retained_float modified_levenshtein_ratio_float_eq)
  moreover have "\<forall>w s. (w, s) \<in> set ?sims \<longleftrightarrow>
      w \<in> set dictionary \<and> modified_levenshtein_ratio_float (lower word) w ?R = Some s \<and> threshold \<le> s"
    by (auto simp: set_retained_float modified_levenshtein_ratio_float_eq)
  moreover have "\<exists>best. autocorrect_float word dictionary threshold max_suggestions nearby_keys =
      Some (best, map fst (slice_to (sort_by_score ?sims) max_suggestions))"
    by (cases "sort_by_score ?sims")
       (auto simp: autocorrect_float_def similarities_float_eq Let_def slice_to_def)
  ultimately show ?thesis by blast
qed

text \<open>At the boundary, on the table computation itself. A score equal to the threshold is
  kept: \<open>ac\<close> scores exactly 1/2 against \<open>ab\<close>; \<open>xy\<close> scores 0 and is dropped.\<close>

lemma threshold_boundary:
  "similarities_float (lower ''ab'') [''ac'', ''xy''] (1 / 2) Map.empty [] = Some [(''ac'', 1 / 2)]"
  by code_simp

text \<open>Where binary64 and exact arithmetic part. Against \<open>abcde\<close> the entry \<open>axxxx\<close> has
  distance 4: the engine returns \<open>1 - 0.8 = 0.19999999999999996\<close>, below the double 0.2,
  and the entry is dropped at threshold 0.2, although the exact score is 1/5.\<close>

lemma threshold_boundary_below:
  "modified_levenshtein_ratio_float ''abcde'' ''axxxx'' Map.empty
     = Some (900719925474099 / 4503599627370496)"
  "float64 (1 / 5) = 3602879701896397 / 18014398509481984"
  "similarities_float (lower ''abcde'') [''axxxx''] (float64 (1 / 5)) Map.empty [] = Some []"
  "modified_levenshtein_ratio ''abcde'' ''axxxx'' Map.empty = Some (1 / 5)"
  by code_simp+

text \<open>Against \<open>abcdefghij\<close> the entry \<open>abcxxxxxxx\<close> has distance 7: the engine returns
  \<open>1 - 0.7 = 0.30000000000000004\<close>, which is the double \<open>0.1 + 0.2\<close>, and the entry is
  kept at that threshold, although the exact score 3/10 is below it.\<close>

lemma threshold_boundary_above:
  "float64 (float64 (1 / 10) + float64 (1 / 5)) = 1351079888211149 / 4503599627370496"
  "similarities_float (lower ''abcdefghij'') [''abcxxxxxxx'']
     (float64 (float64 (1 / 10) + float64 (1 / 5))) Map.empty []
     = Some [(''abcxxxxxxx'', 1351079888211149 / 4503599627370496)]"
  "modified_levenshtein_ratio ''abcdefghij'' ''abcxxxxxxx'' Map.empty = Some (3 / 10)"
  by code_simp+

subsection \<open>C5: ranking and truncation of the suggestions\<close>

text \<open>The claim as stated (for every input, at most \<open>max_suggestions\<close> words, the first
  \<open>max_suggestions\<close> of the ranking) fails for a negative \<open>max_suggestions\<close>: the slice
  \<open>similarities[:-1]\<close> drops the last entry of the ranking, so one word is returned
  where the claim allows at most -1.\<close>

theorem negative_max_suggestions_counterexample:
  "autocorrect ''a'' [''a'', ''b''] 0 (- 1) None = Some (Some ''a'', [''a''])
   \<and> \<not> int (length [''a'']) \<le> - 1"
  by (simp add: eval_ratio eval_rank)

text \<open>C5, amended: for every input with \<open>max_suggestions \<ge> 0\<close>, the retained entries
  are the dictionary entries that pass the threshold, in dictionary order; their ranking
  is a permutation of them, ordered by non-increasing similarity, in which the entries of
  any one score keep their dictionary order (stable sort); the suggestion list consists of
  the words of the first \<open>max_suggestions\<close> entries of the ranking and has at most
  \<open>max_suggestions\<close> words.\<close>

theorem ranked_suggestions:
  assumes "0 \<le> max_suggestions"
  shows "\<exists>sims best suggestions.
     similarities (lower word) dictionary threshold (keymap_arg nearby_keys) [] = Some sims
     \<and> map fst sims =
         filter (\<lambda>w. \<exists>s. modified_levenshtein_ratio (lower word) w (keymap_arg nearby_keys) = Some s
                       \<and> threshold \<le> s) dictionary
     \<and> mset (sort_by_score sims) = mset sims
     \<and> sorted_wrt (\<lambda>p q. snd q \<le> snd p) (sort_by_score sims)
     \<and> (\<forall>k. filter (\<lambda>p. snd p = k) (sort_by_score sims) = filter (\<lambda>p. snd p = k) sims)
     \<and> autocorrect word dictionary threshold max_suggestions nearby_keys = Some (best, suggestions)
     \<and> suggestions = map fst (take (nat max_suggestions) (sort_by_score sims))
     \<and> int (length suggestions) \<le> max_suggestions"
proof -
  let ?R = "keymap_arg nearby_keys"
  let ?sims = "retained (lower word) dictionary threshold ?R"
  let ?sugg = "map fst (take (nat max_suggestions) (sort_by_score ?sims))"
  have 1: "similarities (lower word) dictionary threshold ?R [] = Some ?sims"
    by (rule similarities_eq)
  have 2: "map fst ?sims =
      filter (\<lambda>w. \<exists>s. modified_levenshtein_ratio (lower word) w ?R = Some s \<and> threshold \<le> s)
        dictionary"
    by (simp add: map_fst_retained modified_levenshtein_ratio_eq)
  have 3: "\<exists>best. autocorrect word dictionary threshold max_suggestions nearby_keys = Some (best, ?sugg)"
    using assms by (cases "sort_by_score ?sims") (auto simp: autocorrect_eq slice_to_def)
  have 4: "int (length ?sugg) \<le> max_suggestions" using assms by simp
  from 3 obtain best where
    "autocorrect word dictionary threshold max_suggestions nearby_keys = Some (best, ?sugg)" ..
  with 1 2 4 show ?thesis
    using mset_sort_by_score[of ?sims] sorted_sort_by_score[of ?sims] stable_sort_by_score[of _ ?sims]
    by blast
qed

text \<open>Four entries, three retained, two of them tied at 1/2: the tie keeps the dictionary
  order (\<open>ac\<close> before \<open>ad\<close>), and two suggestions are returned.\<close>

theorem ranked_suggestions_witness:
  "(0::int) \<le> 2
   \<and> similarities (lower ''ab'') [''ac'', ''xy'', ''ad'', ''ab''] (1 / 2) (keymap_arg None) []
       = Some [(''ac'', 1 / 2), (''ad'', 1 / 2), (''ab'', 1)]
   \<and> sort_by_score [(''ac'', 1 / 2), (''ad'', 1 / 2), (''ab'', 1)]
       = [(''ab'', 1), (''ac'', 1 / 2), (''ad'', 1 / 2)]
   \<and> autocorrect ''ab'' [''ac'', ''xy'', ''ad'', ''ab''] (1 / 2) 2 None
       = Some (Some ''ab'', [''ab'', ''ac''])
   \<and> int (length [''ab'', ''ac'']) \<le> 2"
proof -
  have h: "(0::int) \<le> 2" by simp
  have s: "similarities (lower ''ab'') [''ac'', ''xy'', ''ad'', ''ab''] (1 / 2) (keymap_arg None) []
       = Some [(''ac'', 1 / 2), (''ad'', 1 / 2), (''ab'', 1)]"
    by (simp add: eval_ratio lower_def keymap_arg_def)
  have r: "sort_by_score [(''ac'', 1 / 2), (''ad'', 1 / 2), (''ab'', 1)]
       = [(''ab'', 1), (''ac'', 1 / 2), (''ad'', 1 / 2)]"
    by (simp add: sort_by_score_def)
  from ranked_suggestions[OF h, of "''ab''" "[''ac'', ''xy'', ''ad'', ''ab'']" "1 / 2" None]
  obtain best suggestions
    where a: "autocorrect ''ab'' [''ac'', ''xy'', ''ad'', ''ab''] (1 / 2) 2 None = Some (best, suggestions)"
      and b: "suggestions = map fst (take (nat 2)
                (sort_by_score [(''ac'', 1 / 2), (''ad'', 1 / 2), (''ab'', 1)]))"
    unfolding s by auto
  have c: "autocorrect ''ab'' [''ac'', ''xy'', ''ad'', ''ab''] (1 / 2) 2 None
       = Some (Some ''ab'', [''ab'', ''ac''])"
    by (simp add: eval_ratio eval_rank)
  from a b c h s r show ?thesis by simp
qed

subsection \<open>C6: the neighbour lookup is directional\<close>

text \<open>C6: the substitution cost is 1/2 exactly when the characters differ and the
  (lowercased) character of the first string lists the (lowercased) character of the second
  string as a neighbour; with the asymmetric relation that maps \<open>o\<close> to \<open>[i]\<close>, the
  similarity of \<open>o\<close> to \<open>i\<close> is 1/2 and the similarity of \<open>i\<close> to \<open>o\<close> is 0, so the
  similarity is not symmetric.\<close>

theorem neighbor_lookup_directional:
  "(substitution_cost nearby_keys c1 c2 = 1 / 2 \<longleftrightarrow>
      c1 \<noteq> c2 \<and> [lower_char c2] \<in> set (dict_get nearby_keys [lower_char c1]))
   \<and> modified_levenshtein_ratio ''o'' ''i'' [''o'' \<mapsto> [''i'']] = Some (1 / 2)
   \<and> modified_levenshtein_ratio ''i'' ''o'' [''o'' \<mapsto> [''i'']] = Some 0
   \<and> modified_levenshtein_ratio ''o'' ''i'' [''o'' \<mapsto> [''i'']]
       \<noteq> modified_levenshtein_ratio ''i'' ''o'' [''o'' \<mapsto> [''i'']]"
  by (simp add: eval_ratio)

subsection \<open>C7: monotonicity in the neighbour relation\<close>

text \<open>C7: for every pair of strings and every neighbour relation, adding neighbour
  entries \<open>ns\<close> to the list of a key \<open>k\<close> (a new key included) never decreases the
  similarity: both computations return, and the similarity with the extended relation is
  greater than or equal to the one with the original relation.\<close>

theorem added_neighbor_monotone:
  "\<exists>s s'. modified_levenshtein_ratio a b nearby_keys = Some s
     \<and> modified_levenshtein_ratio a b (nearby_keys(k \<mapsto> dict_get nearby_keys k @ ns)) = Some s'
     \<and> s \<le> s'"
proof -
  have "\<forall>k'. set (dict_get nearby_keys k')
          \<subseteq> set (dict_get (nearby_keys(k \<mapsto> dict_get nearby_keys k @ ns)) k')"
    by (auto simp: dict_get_def)
  then have "\<forall>x y. substitution_cost (nearby_keys(k \<mapsto> dict_get nearby_keys k @ ns)) x y
                \<le> substitution_cost nearby_keys x y"
    using substitution_cost_mono by blast
  then show ?thesis
    by (simp add: modified_levenshtein_ratio_eq ratio_mono)
qed

subsection \<open>C8: autocorrect never fails\<close>

text \<open>C8: \<open>autocorrect\<close> returns a result for all inputs (no exception); when every
  dictionary entry scores below the threshold the result is \<open>(None, [])\<close>; so it is for
  an empty dictionary, and for an empty input word when the threshold is positive and the
  dictionary has no empty entry.\<close>

theorem autocorrect_total:
  "(\<exists>result. autocorrect word dictionary threshold max_suggestions nearby_keys = Some result)
   \<and> ((\<forall>w \<in> set dictionary. \<exists>s.
          modified_levenshtein_ratio (lower word) w (keymap_arg nearby_keys) = Some s \<and> s < threshold)
        \<longrightarrow> autocorrect word dictionary threshold max_suggestions nearby_keys = Some (None, []))
   \<and> autocorrect word [] threshold max_suggestions nearby_keys = Some (None, [])
   \<and> (0 < threshold \<and> [] \<notin> set dictionary
        \<longrightarrow> autocorrect [] dictionary threshold max_suggestions nearby_keys = Some (None, []))"
proof -
  have none: "autocorrect w d threshold max_suggestions nearby_keys = Some (None, [])"
    if "\<forall>x \<in> set d. ratio (lower w) x (keymap_arg nearby_keys) < threshold" for w d
  proof -
    have "retained (lower w) d threshold (keymap_arg nearby_keys) = []"
      using that by (auto simp: retained_def filter_empty_conv)
    then show ?thesis by (simp add: autocorrect_eq sort_by_score_def)
  qed
  have 1: "\<exists>result. autocorrect word dictionary threshold max_suggestions nearby_keys = Some result"
    by (simp add: autocorrect_eq)
  have 2: "(\<forall>w \<in> set dictionary. \<exists>s.
          modified_levenshtein_ratio (lower word) w (keymap_arg nearby_keys) = Some s \<and> s < threshold)
        \<longrightarrow> autocorrect word dictionary threshold max_suggestions nearby_keys = Some (None, [])"
    using none[of dictionary word] by (simp add: modified_levenshtein_ratio_eq)
  have 3: "autocorrect word [] threshold max_suggestions nearby_keys = Some (None, [])"
    using none[of "[]" word] by simp
  have 4: "0 < threshold \<and> [] \<notin> set dictionary
        \<longrightarrow> autocorrect [] dictionary threshold max_suggestions nearby_keys = Some (None, [])"
  proof
    assume a: "0 < threshold \<and> [] \<notin> set dictionary"
    have "ratio (lower []) x (keymap_arg nearby_keys) < threshold" if "x \<in> set dictionary" for x
    proof -
      from that a have "x \<noteq> []" by auto
      then have "ratio [] x (keymap_arg nearby_keys) = 0"
        by (cases x) (simp_all add: ratio_def)
      then show ?thesis using a by (simp add: lower_def)
    qed
    then show "autocorrect [] dictionary threshold max_suggestions nearby_keys = Some (None, [])"
      using none[of dictionary "[]"] by blast
  qed
  from 1 2 3 4 show ?thesis by blast
qed

text \<open>The scenario of the specification: the empty word against \<open>a\<close> and \<open>bb\<close> with
  threshold 3/4. Both entries score 0 and the result is \<open>(None, [])\<close>.\<close>

theorem autocorrect_total_witness:
  "modified_levenshtein_ratio (lower []) ''a'' (keymap_arg None) = Some 0
   \<and> modified_levenshtein_ratio (lower []) ''bb'' (keymap_arg None) = Some 0
   \<and> (0::rat) < 3 / 4 \<and> [] \<notin> set [''a'', ''bb'']
   \<and> autocorrect [] [''a'', ''bb''] (3 / 4) 5 None = Some (None, [])"
proof -
  have a: "modified_levenshtein_ratio (lower []) ''a'' (keymap_arg None) = Some 0"
    and b: "modified_levenshtein_ratio (lower []) ''bb'' (keymap_arg None) = Some 0"
    by (simp_all add: eval_ratio lower_def)
  have c: "\<forall>w \<in> set [''a'', ''bb'']. \<exists>s.
          modified_levenshtein_ratio (lower []) w (keymap_arg None) = Some s \<and> s < 3 / 4"
    using a b by simp
  have d: "(0::rat) < 3 / 4 \<and> [] \<notin> set [''a'', ''bb'']" by simp
  from autocorrect_total[of "[]" "[''a'', ''bb'']" "3 / 4" 5 None] c d a b
  show ?thesis by blast
qed

subsection \<open>C9: the auto-correction is the first suggestion\<close>

text \<open>C9: with \<open>max_suggestions \<ge> 1\<close>, a result that carries an auto-correction has a
  non-empty suggestion list whose first element is the auto-corrected word; with
  \<open>max_suggestions = 0\<close> an auto-correction is returned together with an empty
  suggestion list (word \<open>a\<close>, dictionary \<open>[a]\<close>).\<close>

theorem auto_correction_heads_suggestions:
  "(1 \<le> max_suggestions
      \<and> autocorrect word dictionary threshold max_suggestions nearby_keys = Some (Some w, suggestions)
      \<longrightarrow> suggestions \<noteq> [] \<and> hd suggestions = w)
   \<and> autocorrect ''a'' [''a''] (3 / 4) 0 None = Some (Some ''a'', [])"
proof -
  let ?sims = "sort_by_score (retained (lower word) dictionary threshold (keymap_arg nearby_keys))"
  have "suggestions \<noteq> [] \<and> hd suggestions = w"
    if n: "1 \<le> max_suggestions"
      and r: "autocorrect word dictionary threshold max_suggestions nearby_keys = Some (Some w, suggestions)"
  proof (cases ?sims)
    case Nil
    then show ?thesis using r by (simp add: autocorrect_eq)
  next
    case (Cons p ps)
    obtain x s where p: "p = (x, s)" by (cases p)
    obtain m where m: "nat max_suggestions = Suc m" using n by (cases "nat max_suggestions") auto
    have "slice_to ?sims max_suggestions = p # take m ps"
      using n m by (simp add: slice_to_def Cons)
    then show ?thesis using r Cons p by (auto simp: autocorrect_eq split: if_splits)
  qed
  moreover have "autocorrect ''a'' [''a''] (3 / 4) 0 None = Some (Some ''a'', [])"
    by (simp add: eval_ratio eval_rank)
  ultimately show ?thesis by blast
qed

theorem auto_correction_heads_suggestions_witness:
  "(1::int) \<le> 1
   \<and> autocorrect ''ab'' [''ac'', ''ab''] (1 / 2) 1 None = Some (Some ''ab'', [''ab''])
   \<and> [''ab''] \<noteq> [] \<and> hd [''ab''] = ''ab''"
proof -
  have h: "autocorrect ''ab'' [''ac'', ''ab''] (1 / 2) 1 None = Some (Some ''ab'', [''ab''])"
    by (simp add: eval_ratio eval_rank)
  from auto_correction_heads_suggestions[of 1 "''ab''" "[''ac'', ''ab'']" "1 / 2" None "''ab''" "[''ab'']"] h
  show ?thesis by simp
qed

subsection \<open>C10: suggestions are dictionary entries\<close>

text \<open>C10: \<open>autocorrect\<close> returns a pair; every suggested word is an element of the input
  dictionary as given (the entries are never rewritten, only the input word is
  lowercased), and so is the auto-correction when there is one.\<close>

theorem suggestions_from_dictionary:
  "\<exists>best suggestions.
     autocorrect word dictionary threshold max_suggestions nearby_keys = Some (best, suggestions)
     \<and> set suggestions \<subseteq> set dictionary
     \<and> (best = None \<or> (\<exists>w. best = Some w \<and> w \<in> set dictionary))"
proof -
  let ?sims = "retained (lower word) dictionary threshold (keymap_arg nearby_keys)"
  have sub: "fst ` set (sort_by_score ?sims) \<subseteq> set dictionary"
    by (auto simp: set_sort_by_score set_retained)
  have sl: "set (slice_to (sort_by_score ?sims) max_suggestions) \<subseteq> set (sort_by_score ?sims)"
    by (auto simp: slice_to_def dest: in_set_takeD)
  show ?thesis
  proof (cases "sort_by_score ?sims")
    case Nil
    then show ?thesis by (simp add: autocorrect_eq)
  next
    case (Cons p ps)
    obtain w s where p: "p = (w, s)" by (cases p)
    have "w \<in> set dictionary" using sub Cons p by auto
    moreover have "set (map fst (slice_to (sort_by_score ?sims) max_suggestions)) \<subseteq> set dictionary"
      using sub sl by auto
    ultimately show ?thesis using Cons p by (simp add: autocorrect_eq)
  qed
qed

text \<open>An entry with capitals is returned as stored, while the input word is lowercased
  before scoring.\<close>

lemma entries_returned_verbatim:
  "autocorrect ''AB'' [''ab'', ''Ab''] (1 / 2) 5 None = Some (Some ''ab'', [''ab'', ''Ab''])"
proof -
  have "lower ''AB'' = ''ab''" by code_simp
  then show ?thesis
    by (simp add: eval_ratio autocorrect_def keymap_arg_def sort_by_score_def slice_to_def Let_def)
qed

end
